theory Spec2Isabelle
  imports Complex_Main
begin

section \<open>Face blurring in images and videos: the model of processar_arquivos.py\<close>

text \<open>
  The script has two functions, \<^verbatim>\<open>blur_faces_in_images\<close> and
  \<^verbatim>\<open>blur_faces_in_videos\<close>. Both call three external collaborators, which are
  parameters of the model:
  \<^item> \<^verbatim>\<open>YOLO('face_yolov8n_v2.pt')\<close>, which either raises (\<open>Inl\<close> with the
    message of the exception) or yields the detector (\<open>Inr\<close>);
  \<^item> the detector \<^verbatim>\<open>model(frame, verbose=False)\<close>, a function from a frame to a list
    of results, each holding a list of boxes with a confidence and four coordinates;
  \<^item> \<^verbatim>\<open>cv2.GaussianBlur(face_roi, blur_kernel, 0)\<close>, a function from a region and
    a kernel to a region (OpenCV returns an array of the size of its argument).

  Coordinates and the frame rate are floating-point numbers in the source; they are
  modelled by the real numbers they denote, \<^verbatim>\<open>int(...)\<close> being truncation towards
  zero. A confidence is a single-precision number, and the comparison of lines 51
  and 133 is made in single precision: the threshold, a Python float, is rounded to
  the nearest single-precision number first. The file system is a record of the existing
  directories, the files with what they decode to, and the lines printed so far.
  Paths are POSIX strings, compared literally.
\<close>

subsection \<open>Single precision\<close>

text \<open>
  \<^verbatim>\<open>box.conf[0]\<close> is a tensor of type float32, and
  \<^verbatim>\<open>box.conf[0] > confidence_threshold\<close> converts the threshold to float32 before it
  compares. Rounding is to the nearest number of 24 significant bits, ties to the
  even one, with the exponent not below that of the subnormal numbers; the spacing
  of the numbers around \<open>a\<close> is read off the bit length of \<open>a\<close> counted in units of
  2 to the power -149. Thresholds beyond the range of float32 (from 2 to the power
  128 on) are outside the script's interface, which takes a threshold between 0 and
  1, and are rounded like the others here.
\<close>

function bit_length :: "nat \<Rightarrow> nat" where
  "bit_length n = (if n = 0 then 0 else Suc (bit_length (n div 2)))"
  by pat_completeness auto
termination
  by (relation "measure id") auto

declare bit_length.simps [simp del]

definition round_half_even :: "real \<Rightarrow> int" where
  "round_half_even r =
     (let f = \<lfloor>r\<rfloor>; d = r - of_int f
      in if d < 1 / 2 then f else if 1 / 2 < d then f + 1 else if even f then f else f + 1)"

definition float32_ulp :: "real \<Rightarrow> real" where
  "float32_ulp a = 2 ^ max (bit_length (nat \<lfloor>a * 2 ^ 149\<rfloor>)) 24 / 2 ^ 173"

definition round_magnitude :: "real \<Rightarrow> real" where
  "round_magnitude a = of_int (round_half_even (a / float32_ulp a)) * float32_ulp a"

definition round_float32 :: "real \<Rightarrow> real" where
  "round_float32 x = (if x < 0 then - round_magnitude (- x) else round_magnitude x)"

text \<open>The single-precision numbers: the reals that rounding leaves as they are.\<close>

typedef float32 = "{x::real. round_float32 x = x}"
  by (rule exI [of _ 0])
    (simp add: round_float32_def round_magnitude_def float32_ulp_def round_half_even_def
       bit_length.simps)

setup_lifting type_definition_float32

text \<open>The single-precision number of a given value (zero when there is none).\<close>

lift_definition f32_of :: "real \<Rightarrow> float32" is
  "\<lambda>x. if round_float32 x = x then x else 0"
  by (simp add: round_float32_def round_magnitude_def float32_ulp_def round_half_even_def
       bit_length.simps)

subsection \<open>Frames, boxes and Python slices\<close>

type_synonym 'px frame = "'px list list"

type_synonym box = "int \<times> int \<times> int \<times> int"

type_synonym kernel = "nat \<times> nat"

record yolo_box =
  conf32 :: float32
  xyxy :: "real \<times> real \<times> real \<times> real"

text \<open>The value of \<^verbatim>\<open>box.conf[0]\<close>.\<close>

definition conf :: "yolo_box \<Rightarrow> real" where
  "conf box = Rep_float32 (conf32 box)"

type_synonym 'px detector = "'px frame \<Rightarrow> yolo_box list list"

type_synonym 'px blur = "'px frame \<Rightarrow> kernel \<Rightarrow> 'px frame"

text \<open>\<^verbatim>\<open>int(x)\<close> on a float: truncation towards zero.\<close>

definition py_int :: "real \<Rightarrow> int" where
  "py_int r = (if r < 0 then \<lceil>r\<rceil> else \<lfloor>r\<rfloor>)"

text \<open>\<^verbatim>\<open>x1, y1, x2, y2 = map(int, box.xyxy[0])\<close>\<close>

definition map_int :: "real \<times> real \<times> real \<times> real \<Rightarrow> box" where
  "map_int c = (case c of (x1, y1, x2, y2) \<Rightarrow> (py_int x1, py_int y1, py_int x2, py_int y2))"

text \<open>
  \<^verbatim>\<open>height, width, _ = frame.shape\<close>: the number of rows and the length of a row.
\<close>

definition frame_height :: "'px frame \<Rightarrow> int" where
  "frame_height frame = int (length frame)"

definition frame_width :: "'px frame \<Rightarrow> int" where
  "frame_width frame = (case frame of [] \<Rightarrow> 0 | row # _ \<Rightarrow> int (length row))"

text \<open>
  The clamp of lines 54 and 138:
  \<^verbatim>\<open>x1, y1, x2, y2 = max(0, x1), max(0, y1), min(width, x2), min(height, y2)\<close>
\<close>

definition clamp :: "int \<Rightarrow> int \<Rightarrow> box \<Rightarrow> box" where
  "clamp width height b =
     (case b of (x1, y1, x2, y2) \<Rightarrow> (max 0 x1, max 0 y1, min width x2, min height y2))"

text \<open>
  A bound of a Python slice over a sequence of length \<open>n\<close>: a negative bound counts
  from the end, and every bound is cut to \<open>0..n\<close>.
\<close>

definition py_slice_index :: "nat \<Rightarrow> int \<Rightarrow> nat" where
  "py_slice_index n i = nat (if i < 0 then max (i + int n) 0 else min i (int n))"

definition py_slice :: "'a list \<Rightarrow> int \<Rightarrow> int \<Rightarrow> 'a list" where
  "py_slice xs a b =
     (let lo = py_slice_index (length xs) a; hi = py_slice_index (length xs) b
      in take (hi - lo) (drop lo xs))"

text \<open>
  Writing \<open>ys\<close> over the slice \<open>a:b\<close>. NumPy only accepts a value of the shape of the
  slice, which is what \<^verbatim>\<open>cv2.GaussianBlur\<close> returns.
\<close>

definition py_slice_assign :: "'a list \<Rightarrow> int \<Rightarrow> int \<Rightarrow> 'a list \<Rightarrow> 'a list" where
  "py_slice_assign xs a b ys =
     (let lo = py_slice_index (length xs) a; hi = py_slice_index (length xs) b
      in take lo xs @ ys @ drop (max lo hi) xs)"

text \<open>\<^verbatim>\<open>frame[y1:y2, x1:x2]\<close>\<close>

definition get_roi :: "'px frame \<Rightarrow> int \<Rightarrow> int \<Rightarrow> int \<Rightarrow> int \<Rightarrow> 'px frame" where
  "get_roi frame y1 y2 x1 x2 = map (\<lambda>row. py_slice row x1 x2) (py_slice frame y1 y2)"

text \<open>\<^verbatim>\<open>face_roi.size\<close>: the number of pixels of the region (times the channels).\<close>

definition roi_size :: "'px frame \<Rightarrow> nat" where
  "roi_size roi = sum_list (map length roi)"

text \<open>\<^verbatim>\<open>frame[y1:y2, x1:x2] = blurred_face_roi\<close>\<close>

definition set_roi :: "'px frame \<Rightarrow> int \<Rightarrow> int \<Rightarrow> int \<Rightarrow> int \<Rightarrow> 'px frame \<Rightarrow> 'px frame" where
  "set_roi frame y1 y2 x1 x2 blurred =
     py_slice_assign frame y1 y2
       (map (\<lambda>(row, brow). py_slice_assign row x1 x2 brow) (zip (py_slice frame y1 y2) blurred))"

text \<open>
  Lines 54 to 61 and 138 to 144: clamp the box, cut the region out, and blur it in
  place when it is not empty.
\<close>

definition blur_face :: "'px blur \<Rightarrow> kernel \<Rightarrow> int \<Rightarrow> int \<Rightarrow> box \<Rightarrow> 'px frame \<Rightarrow> 'px frame" where
  "blur_face GaussianBlur blur_kernel width height b frame =
     (case clamp width height b of (x1, y1, x2, y2) \<Rightarrow>
        (let face_roi = get_roi frame y1 y2 x1 x2
         in if roi_size face_roi > 0
            then set_roi frame y1 y2 x1 x2 (GaussianBlur face_roi blur_kernel)
            else frame))"

subsection \<open>The detect-and-blur step of the image pipeline\<close>

text \<open>
  Lines 43 to 61: the frame's own shape gives the bounds, the detector runs once, and
  the two nested loops blur every box whose confidence is above the threshold, the
  comparison of line 51 being made in single precision.
\<close>

definition image_box_step ::
  "'px blur \<Rightarrow> kernel \<Rightarrow> real \<Rightarrow> int \<Rightarrow> int \<Rightarrow> yolo_box \<Rightarrow> 'px frame \<Rightarrow> 'px frame" where
  "image_box_step GaussianBlur blur_kernel confidence_threshold width height box frame =
     (if conf box > round_float32 confidence_threshold
      then blur_face GaussianBlur blur_kernel width height (map_int (xyxy box)) frame
      else frame)"

definition image_detect_and_blur ::
  "'px detector \<Rightarrow> 'px blur \<Rightarrow> kernel \<Rightarrow> real \<Rightarrow> 'px frame \<Rightarrow> 'px frame" where
  "image_detect_and_blur model GaussianBlur blur_kernel confidence_threshold frame =
     (let height = frame_height frame; width = frame_width frame;
          results = model frame
      in fold (\<lambda>r. fold (image_box_step GaussianBlur blur_kernel confidence_threshold
                             width height) r)
           results frame)"

subsection \<open>The per-frame step of the video pipeline\<close>

datatype error = ZeroDivisionError

text \<open>
  The lines the script prints, by the line of the source that prints them: 21 and 86
  (directory created), 26 and 91 (the model did not load), 31 and 96 (file not
  found), 36 and 101 (processing a file), 40 (image not readable), 105 (video not
  opened), 126 (frame number, frame count and name, every 30th frame), 64 and 150
  (name and output path of a finished file), 66 and 152 (all done).
\<close>

datatype msg =
    DirCreated string
  | ModelLoadError string
  | FileNotFound string
  | Processing string
  | CannotRead string
  | CannotOpen string
  | FrameProgress int int string
  | Saved string string
  | AllDone

text \<open>
  Lines 130 to 135: the cache is emptied and then filled, in the detector's order,
  with the integer coordinates of the boxes above the threshold, the comparison of
  line 133 being made in single precision.
\<close>

definition detect_faces :: "real \<Rightarrow> yolo_box list list \<Rightarrow> box list" where
  "detect_faces confidence_threshold results =
     fold (\<lambda>r. fold (\<lambda>box faces.
                  if conf box > round_float32 confidence_threshold
                  then faces @ [map_int (xyxy box)]
                  else faces) r)
       results []"

text \<open>
  Lines 124 to 146, one turn of the loop on a frame that was read. The state is
  \<open>(frame_number, last_known_faces)\<close>; the result is the new state, the line printed
  (if any) and the frame handed to the writer. \<^verbatim>\<open>frame_number % detection_interval\<close>
  raises when the interval is zero; Python's \<^verbatim>\<open>%\<close> on integers is \<open>mod\<close>.
\<close>

definition video_frame_step ::
  "'px detector \<Rightarrow> 'px blur \<Rightarrow> kernel \<Rightarrow> real \<Rightarrow> int \<Rightarrow> int \<Rightarrow> int \<Rightarrow> int \<Rightarrow> string \<Rightarrow>
     int \<times> box list \<Rightarrow> 'px frame \<Rightarrow> error + ((int \<times> box list) \<times> msg list \<times> 'px frame)" where
  "video_frame_step model GaussianBlur blur_kernel confidence_threshold detection_interval
       width height frame_count video_name state frame =
     (case state of (frame_number0, last_known_faces0) \<Rightarrow>
        (let frame_number = frame_number0 + 1;
             printed = (if frame_number mod 30 = 0
                        then [FrameProgress frame_number frame_count video_name] else [])
         in if detection_interval = 0 then Inl ZeroDivisionError
            else
              (let last_known_faces =
                     (if frame_number mod detection_interval = 0
                      then detect_faces confidence_threshold (model frame)
                      else last_known_faces0)
               in Inr ((frame_number, last_known_faces), printed,
                       fold (blur_face GaussianBlur blur_kernel width height)
                         last_known_faces frame))))"

subsection \<open>Files, paths and the console\<close>

text \<open>
  What \<^verbatim>\<open>cv2.VideoCapture\<close> reports of an opened video: the width, height and frame
  rate properties, and the frames \<^verbatim>\<open>cap.read()\<close> returns until it fails. The same
  record describes what a \<^verbatim>\<open>cv2.VideoWriter\<close> was opened with and the frames
  written to it.
\<close>

record 'px video =
  v_width :: int
  v_height :: int
  v_fps :: real
  v_frames :: "'px frame list"

datatype 'px content = Image "'px frame" | Video "'px video" | Other

record 'px world =
  dirs :: "string set"
  files :: "string \<Rightarrow> 'px content option"
  stdout :: "msg list"

definition path_exists :: "'px world \<Rightarrow> string \<Rightarrow> bool" where
  "path_exists w p = (p \<in> dirs w \<or> files w p \<noteq> None)"

definition makedirs :: "string \<Rightarrow> 'px world \<Rightarrow> 'px world" where
  "makedirs p w = w\<lparr>dirs := insert p (dirs w)\<rparr>"

definition print_line :: "msg \<Rightarrow> 'px world \<Rightarrow> 'px world" where
  "print_line m w = w\<lparr>stdout := stdout w @ [m]\<rparr>"

definition imread :: "'px world \<Rightarrow> string \<Rightarrow> 'px frame option" where
  "imread w p = (case files w p of Some (Image frame) \<Rightarrow> Some frame | _ \<Rightarrow> None)"

definition imwrite :: "string \<Rightarrow> 'px frame \<Rightarrow> 'px world \<Rightarrow> 'px world" where
  "imwrite p frame w = w\<lparr>files := (files w)(p \<mapsto> Image frame)\<rparr>"

definition VideoCapture :: "'px world \<Rightarrow> string \<Rightarrow> 'px video option" where
  "VideoCapture w p = (case files w p of Some (Video cap) \<Rightarrow> Some cap | _ \<Rightarrow> None)"

text \<open>The file a writer leaves behind once it is released.\<close>

definition VideoWriter :: "string \<Rightarrow> int \<Rightarrow> int \<times> int \<Rightarrow> 'px frame list \<Rightarrow> 'px world \<Rightarrow> 'px world" where
  "VideoWriter p fps dims written w =
     w\<lparr>files := (files w)(p \<mapsto>
          Video \<lparr>v_width = fst dims, v_height = snd dims, v_fps = of_int fps,
                 v_frames = written\<rparr>)\<rparr>"

text \<open>\<^verbatim>\<open>os.path.basename\<close> and \<^verbatim>\<open>os.path.join\<close> of posixpath.\<close>

definition basename :: "string \<Rightarrow> string" where
  "basename p = rev (takeWhile (\<lambda>c. c \<noteq> CHR ''/'') (rev p))"

definition path_join :: "string \<Rightarrow> string \<Rightarrow> string" where
  "path_join a b =
     (if take 1 b = ''/'' then b
      else if a = [] \<or> last a = CHR ''/'' then a @ b
      else a @ ''/'' @ b)"

text \<open>Lines 34, 35 and 99, 100: \<^verbatim>\<open>os.path.join(output_dir, f"blurred_{name}")\<close>\<close>

definition output_path_of :: "string \<Rightarrow> string \<Rightarrow> string" where
  "output_path_of output_dir path = path_join output_dir (''blurred_'' @ basename path)"

text \<open>Lines 19 to 21 and 84 to 86.\<close>

definition ensure_output_dir :: "string \<Rightarrow> 'px world \<Rightarrow> 'px world" where
  "ensure_output_dir output_dir w =
     (if \<not> path_exists w output_dir
      then print_line (DirCreated output_dir) (makedirs output_dir w)
      else w)"

subsection \<open>blur_faces_in_images\<close>

text \<open>Lines 30 to 64, the body of the loop over the image paths.\<close>

definition process_image ::
  "'px detector \<Rightarrow> 'px blur \<Rightarrow> string \<Rightarrow> kernel \<Rightarrow> real \<Rightarrow> string \<Rightarrow> 'px world \<Rightarrow> 'px world" where
  "process_image model GaussianBlur output_dir blur_kernel confidence_threshold image_path w =
     (if \<not> path_exists w image_path then print_line (FileNotFound image_path) w
      else
        (let image_name = basename image_path;
             output_path = output_path_of output_dir image_path;
             w1 = print_line (Processing image_name) w
         in case imread w1 image_path of
              None \<Rightarrow> print_line (CannotRead image_path) w1
            | Some frame \<Rightarrow>
                print_line (Saved image_name output_path)
                  (imwrite output_path
                     (image_detect_and_blur model GaussianBlur blur_kernel
                        confidence_threshold frame) w1)))"

definition blur_faces_in_images ::
  "string + 'px detector \<Rightarrow> 'px blur \<Rightarrow> string list \<Rightarrow> string \<Rightarrow> kernel \<Rightarrow> real \<Rightarrow>
     'px world \<Rightarrow> 'px world" where
  "blur_faces_in_images YOLO GaussianBlur image_paths output_dir blur_kernel
       confidence_threshold w =
     (let w1 = ensure_output_dir output_dir w
      in case YOLO of
           Inl e \<Rightarrow> print_line (ModelLoadError e) w1
         | Inr model \<Rightarrow>
             print_line AllDone
               (fold (process_image model GaussianBlur output_dir blur_kernel
                        confidence_threshold) image_paths w1))"

subsection \<open>blur_faces_in_videos\<close>

text \<open>
  Lines 119 to 146: the loop reads frames until \<^verbatim>\<open>cap.read()\<close> fails, and hands each
  processed frame to the writer. It returns the last state, the lines printed and
  the frames written, or the exception that ended it.
\<close>

fun video_loop ::
  "(int \<times> box list \<Rightarrow> 'px frame \<Rightarrow> error + ((int \<times> box list) \<times> msg list \<times> 'px frame)) \<Rightarrow>
     int \<times> box list \<Rightarrow> 'px frame list \<Rightarrow>
     error + ((int \<times> box list) \<times> msg list \<times> 'px frame list)" where
  "video_loop step state [] = Inr (state, [], [])"
| "video_loop step state (frame # rest) =
     (case step state frame of
        Inl e \<Rightarrow> Inl e
      | Inr (state', printed, out_frame) \<Rightarrow>
          (case video_loop step state' rest of
             Inl e \<Rightarrow> Inl e
           | Inr (final, printed', written) \<Rightarrow>
               Inr (final, printed @ printed', out_frame # written)))"

text \<open>
  Lines 95 to 150, the body of the loop over the video paths. The frame count the
  capture reports is taken to be the number of frames it delivers; it is only
  printed. The writer's file is what it holds after \<^verbatim>\<open>out.release()\<close>; an
  exception in the loop leaves the function, and the model keeps no world for it.
\<close>

definition process_video ::
  "'px detector \<Rightarrow> 'px blur \<Rightarrow> string \<Rightarrow> kernel \<Rightarrow> real \<Rightarrow> int \<Rightarrow> string \<Rightarrow> 'px world \<Rightarrow>
     error + 'px world" where
  "process_video model GaussianBlur output_dir blur_kernel confidence_threshold
       detection_interval video_path w =
     (if \<not> path_exists w video_path then Inr (print_line (FileNotFound video_path) w)
      else
        (let video_name = basename video_path;
             output_path = output_path_of output_dir video_path;
             w1 = print_line (Processing video_name) w
         in case VideoCapture w1 video_path of
              None \<Rightarrow> Inr (print_line (CannotOpen video_path) w1)
            | Some cap \<Rightarrow>
                (let width = v_width cap; height = v_height cap;
                     fps = py_int (v_fps cap);
                     frame_count = int (length (v_frames cap))
                 in case video_loop
                           (video_frame_step model GaussianBlur blur_kernel
                              confidence_threshold detection_interval width height
                              frame_count video_name)
                           (0, []) (v_frames cap) of
                      Inl e \<Rightarrow> Inl e
                    | Inr (final, printed, written) \<Rightarrow>
                        Inr (print_line (Saved video_name output_path)
                               (VideoWriter output_path fps (width, height) written
                                  (w1\<lparr>stdout := stdout w1 @ printed\<rparr>))))))"

fun for_videos ::
  "(string \<Rightarrow> 'px world \<Rightarrow> error + 'px world) \<Rightarrow> string list \<Rightarrow> 'px world \<Rightarrow> error + 'px world" where
  "for_videos body [] w = Inr w"
| "for_videos body (video_path # rest) w =
     (case body video_path w of Inl e \<Rightarrow> Inl e | Inr w' \<Rightarrow> for_videos body rest w')"

definition blur_faces_in_videos ::
  "string + 'px detector \<Rightarrow> 'px blur \<Rightarrow> string list \<Rightarrow> string \<Rightarrow> kernel \<Rightarrow> real \<Rightarrow> int \<Rightarrow>
     'px world \<Rightarrow> error + 'px world" where
  "blur_faces_in_videos YOLO GaussianBlur video_paths output_dir blur_kernel
       confidence_threshold detection_interval w =
     (let w1 = ensure_output_dir output_dir w
      in case YOLO of
           Inl e \<Rightarrow> Inr (print_line (ModelLoadError e) w1)
         | Inr model \<Rightarrow>
             (case for_videos
                     (process_video model GaussianBlur output_dir blur_kernel
                        confidence_threshold detection_interval) video_paths w1 of
                Inl e \<Rightarrow> Inl e
              | Inr w2 \<Rightarrow> Inr (print_line AllDone w2)))"

subsection \<open>Notions used in the statements\<close>

text \<open>
  A box that lies in the frame and is ordered: \<open>0 \<le> x1 \<le> x2 \<le> W\<close> and
  \<open>0 \<le> y1 \<le> y2 \<le> H\<close>.
\<close>

definition within_frame :: "int \<Rightarrow> int \<Rightarrow> box \<Rightarrow> bool" where
  "within_frame W H b =
     (case b of (x1, y1, x2, y2) \<Rightarrow>
        0 \<le> x1 \<and> x1 \<le> x2 \<and> x2 \<le> W \<and> 0 \<le> y1 \<and> y1 \<le> y2 \<and> y2 \<le> H)"

text \<open>
  The integer coordinates of exactly the boxes whose confidence is strictly above the
  threshold, in the detector's order.
\<close>

definition boxes_above :: "real \<Rightarrow> yolo_box list \<Rightarrow> box list" where
  "boxes_above thr bs = map (\<lambda>b. map_int (xyxy b)) (filter (\<lambda>b. conf b > thr) bs)"

text \<open>
  A small frame of three rows and four columns, a blur that blackens the region, and a
  detector that finds one box of confidence 0.875 and one of confidence 0.5.
\<close>

definition example_frame :: "nat frame" where
  "example_frame = [[1, 2, 3, 4], [5, 6, 7, 8], [9, 10, 11, 12]]"

definition example_blur :: "nat blur" where
  "example_blur roi k = map (map (\<lambda>_. 0)) roi"

definition example_model :: "nat detector" where
  "example_model frame =
     [[\<lparr>conf32 = f32_of (7 / 8), xyxy = (3 / 2, 6 / 5, 37 / 10, 29 / 10)\<rparr>,
       \<lparr>conf32 = f32_of (1 / 2), xyxy = (0, 0, 1, 1)\<rparr>]]"

text \<open>A detector whose only box reaches beyond the example frame on three sides.\<close>

definition example_model_outside :: "nat detector" where
  "example_model_outside frame =
     [[\<lparr>conf32 = f32_of (7 / 8), xyxy = (- 5 / 2, - 3 / 2, 103 / 10, 19 / 10)\<rparr>]]"

text \<open>
  The Python float \<^verbatim>\<open>0.6\<close>, and a detector whose only box has the confidence
  \<^verbatim>\<open>float32(0.6)\<close>, which is 5033165 / 8388608 and lies above it.
\<close>

definition double_0_6 :: real where
  "double_0_6 = 5404319552844595 / 9007199254740992"

definition example_model_0_6 :: "nat detector" where
  "example_model_0_6 frame =
     [[\<lparr>conf32 = f32_of (5033165 / 8388608), xyxy = (3 / 2, 6 / 5, 37 / 10, 29 / 10)\<rparr>]]"

text \<open>
  A file system with two images of the same basename and two videos of the same
  basename; the first video has the NTSC frame rate 30000/1001.
\<close>

definition example_world :: "nat world" where
  "example_world =
     \<lparr>dirs = {''in'', ''in/b''},
      files = [''in/a.jpg'' \<mapsto> Image example_frame,
               ''in/b/a.jpg'' \<mapsto> Image [[7, 7], [7, 7]],
               ''in/v.mp4'' \<mapsto> Video \<lparr>v_width = 4, v_height = 3, v_fps = 30000 / 1001,
                                            v_frames = [example_frame, example_frame]\<rparr>,
               ''in/b/v.mp4'' \<mapsto> Video \<lparr>v_width = 2, v_height = 2, v_fps = 25,
                                              v_frames = [[[7, 7], [7, 7]]]\<rparr>],
      stdout = []\<rparr>"

section \<open>Properties\<close>

subsection \<open>Rounding to single precision\<close>

lemma bit_length_numeral:
  "bit_length (numeral (Num.Bit0 n)) = Suc (bit_length (numeral n))"
  "bit_length (numeral (Num.Bit1 n)) = Suc (bit_length (numeral n))"
  "bit_length (Suc 0) = 1" "bit_length 1 = 1" "bit_length 0 = 0"
  by (subst bit_length.simps, simp add: bit_length.simps)+

lemmas float32_eval = round_float32_def round_magnitude_def float32_ulp_def
  round_half_even_def bit_length_numeral Let_def

lemma round_float32_examples:
  "round_float32 (7 / 8) = 7 / 8" "round_float32 (1 / 2) = 1 / 2"
  "round_float32 (5033165 / 8388608) = 5033165 / 8388608"
  "round_float32 double_0_6 = 5033165 / 8388608"
  by (simp_all add: float32_eval double_0_6_def)

lemma conf_examples:
  "conf \<lparr>conf32 = f32_of (7 / 8), xyxy = c\<rparr> = 7 / 8"
  "conf \<lparr>conf32 = f32_of (1 / 2), xyxy = c\<rparr> = 1 / 2"
  "conf \<lparr>conf32 = f32_of (5033165 / 8388608), xyxy = c\<rparr> = 5033165 / 8388608"
  by (simp_all add: conf_def f32_of.rep_eq round_float32_examples)

lemma bit_length_less: "n < 2 ^ bit_length n"
proof (induction n rule: bit_length.induct)
  case (1 n)
  show ?case
  proof (cases "n = 0")
    case True
    then show ?thesis by (simp add: bit_length.simps)
  next
    case False
    with 1 have "n div 2 < 2 ^ bit_length (n div 2)" by simp
    then have "n < 2 * 2 ^ bit_length (n div 2)" by linarith
    with False show ?thesis by (subst bit_length.simps) simp
  qed
qed

lemma bit_length_ge: "0 < n \<Longrightarrow> 2 ^ (bit_length n - 1) \<le> n"
proof (induction n rule: bit_length.induct)
  case (1 n)
  then have n: "n \<noteq> 0" by simp
  show ?case
  proof (cases "n div 2 = 0")
    case True
    with n have "bit_length n = 1"
      by (subst bit_length.simps) (simp add: bit_length.simps)
    with 1 show ?thesis by simp
  next
    case False
    with 1 n have "2 ^ (bit_length (n div 2) - 1) \<le> n div 2" by simp
    then have "2 * 2 ^ (bit_length (n div 2) - 1) \<le> n" by linarith
    moreover have "bit_length (n div 2) \<noteq> 0"
      using False by (subst bit_length.simps) simp
    then have "2 * (2::nat) ^ (bit_length (n div 2) - 1) = 2 ^ bit_length (n div 2)"
      by (cases "bit_length (n div 2)") simp_all
    moreover have "bit_length n = Suc (bit_length (n div 2))"
      using n by (subst bit_length.simps) simp
    ultimately show ?thesis by simp
  qed
qed

lemma bit_length_mono: "m \<le> n \<Longrightarrow> bit_length m \<le> bit_length n"
proof (rule ccontr)
  assume le: "m \<le> n" and "\<not> bit_length m \<le> bit_length n"
  then have lt: "bit_length n < bit_length m" by simp
  then have pos: "0 < m" by (cases "m = 0") (simp_all add: bit_length.simps)
  have "n < 2 ^ bit_length n" by (rule bit_length_less)
  also have "(2::nat) ^ bit_length n \<le> 2 ^ (bit_length m - 1)"
    using lt by (intro power_increasing) simp_all
  also have "\<dots> \<le> m" by (rule bit_length_ge [OF pos])
  finally show False using le by simp
qed

lemma round_half_even_mono: "a \<le> b \<Longrightarrow> round_half_even a \<le> round_half_even b"
proof -
  assume ab: "a \<le> b"
  have fl: "\<lfloor>a\<rfloor> \<le> \<lfloor>b\<rfloor>" using ab by (rule floor_mono)
  show ?thesis
  proof (cases "\<lfloor>a\<rfloor> = \<lfloor>b\<rfloor>")
    case True
    with ab show ?thesis
      by (auto simp: round_half_even_def Let_def)
  next
    case False
    with fl have "\<lfloor>a\<rfloor> + 1 \<le> \<lfloor>b\<rfloor>" by simp
    moreover have "round_half_even a \<le> \<lfloor>a\<rfloor> + 1"
      by (auto simp: round_half_even_def Let_def)
    moreover have "\<lfloor>b\<rfloor> \<le> round_half_even b"
      by (auto simp: round_half_even_def Let_def)
    ultimately show ?thesis by linarith
  qed
qed

lemma round_half_even_of_int: "round_half_even (of_int k) = k"
  by (simp add: round_half_even_def Let_def)


lemma float32_ulp_pos: "0 < float32_ulp a"
  by (simp add: float32_ulp_def)

lemma round_magnitude_nonneg: "0 \<le> a \<Longrightarrow> 0 \<le> round_magnitude a"
proof -
  assume "0 \<le> a"
  then have "0 \<le> a / float32_ulp a"
    using float32_ulp_pos [of a] by simp
  then have "round_half_even 0 \<le> round_half_even (a / float32_ulp a)"
    by (rule round_half_even_mono)
  then have "0 \<le> round_half_even (a / float32_ulp a)"
    by (simp add: round_half_even_def)
  then show ?thesis
    using float32_ulp_pos [of a] by (simp add: round_magnitude_def)
qed

lemma round_magnitude_mono:
  assumes "0 \<le> a" and "a \<le> b"
  shows "round_magnitude a \<le> round_magnitude b"
proof -
  define na where "na = nat \<lfloor>a * 2 ^ 149\<rfloor>"
  define nb where "nb = nat \<lfloor>b * 2 ^ 149\<rfloor>"
  define j where "j = max (bit_length na) 24"
  define k where "k = max (bit_length nb) 24"
  have ua: "float32_ulp a = 2 ^ j / 2 ^ 173"
    by (simp add: float32_ulp_def j_def na_def)
  have ub: "float32_ulp b = 2 ^ k / 2 ^ 173"
    by (simp add: float32_ulp_def k_def nb_def)
  have "a * 2 ^ 149 \<le> b * 2 ^ 149" using assms(2) by simp
  then have "na \<le> nb"
    unfolding na_def nb_def by (intro nat_mono floor_mono)
  then have jk: "j \<le> k"
    unfolding j_def k_def using bit_length_mono [of na nb] by simp
  show ?thesis
  proof (cases "j = k")
    case True
    have u: "float32_ulp a = float32_ulp b" by (simp add: ua ub True)
    have "a / float32_ulp b \<le> b / float32_ulp b"
      using assms(2) float32_ulp_pos [of b] by (simp add: divide_right_mono)
    then have "round_half_even (a / float32_ulp b) \<le> round_half_even (b / float32_ulp b)"
      by (rule round_half_even_mono)
    then show ?thesis
      using float32_ulp_pos [of b] by (simp add: round_magnitude_def u)
  next
    case False
    with jk have lt: "j < k" by simp
    have j24: "24 \<le> j" by (simp add: j_def)
    with lt have kb: "k = bit_length nb" "0 < k" by (auto simp: k_def)
    then have nbpos: "0 < nb" by (cases "nb = 0") (simp_all add: bit_length.simps)
    have "(2::nat) ^ (k - 1) \<le> nb"
      using bit_length_ge [OF nbpos] kb by simp
    then have "(2::real) ^ (k - 1) \<le> real nb"
      by (metis of_nat_le_iff of_nat_numeral of_nat_power)
    also have "real nb \<le> b * 2 ^ 149"
      using nbpos by (simp add: nb_def)
    finally have b1: "(2::real) ^ (k - 1) \<le> b * 2 ^ 149" .
    have k2: "(2::real) ^ k = 2 * 2 ^ (k - 1)"
      using kb(2) by (cases k) simp_all
    have "b / float32_ulp b = b * 2 ^ 149 * 2 ^ 24 / 2 ^ k"
      by (simp add: ub)
    also have "\<dots> \<ge> 2 ^ (k - 1) * 2 ^ 24 / 2 ^ k"
      using b1 by (intro divide_right_mono mult_right_mono) simp_all
    finally have "of_int (2 ^ 23) \<le> b / float32_ulp b"
      by (simp add: k2)
    then have "round_half_even (of_int (2 ^ 23)) \<le> round_half_even (b / float32_ulp b)"
      by (rule round_half_even_mono)
    then have "2 ^ 23 \<le> round_half_even (b / float32_ulp b)"
      by (simp only: round_half_even_of_int)
    then have "(2::real) ^ 23 \<le> of_int (round_half_even (b / float32_ulp b))"
      by (metis of_int_le_iff of_int_numeral of_int_power)
    then have hi: "2 ^ 23 * float32_ulp b \<le> round_magnitude b"
      using float32_ulp_pos [of b] by (simp add: round_magnitude_def)
    have "na < 2 ^ bit_length na" by (rule bit_length_less)
    also have "(2::nat) ^ bit_length na \<le> 2 ^ j"
      by (intro power_increasing) (simp_all add: j_def)
    finally have naj: "na < 2 ^ j" .
    have "a * 2 ^ 149 < real na + 1"
      using assms(1) by (simp add: na_def)
    moreover have "real na + 1 \<le> 2 ^ j"
    proof -
      from naj have "na + 1 \<le> 2 ^ j" by simp
      then have "real (na + 1) \<le> real (2 ^ j)" by (simp only: of_nat_le_iff)
      then show ?thesis by simp
    qed
    ultimately have a1: "a * 2 ^ 149 \<le> 2 ^ j" by linarith
    have "a / float32_ulp a = a * 2 ^ 149 * 2 ^ 24 / 2 ^ j"
      by (simp add: ua)
    also have "\<dots> \<le> 2 ^ j * 2 ^ 24 / 2 ^ j"
      using a1 by (intro divide_right_mono mult_right_mono) simp_all
    finally have "a / float32_ulp a \<le> of_int (2 ^ 24)" by simp
    then have "round_half_even (a / float32_ulp a) \<le> round_half_even (of_int (2 ^ 24))"
      by (rule round_half_even_mono)
    then have "round_half_even (a / float32_ulp a) \<le> 2 ^ 24"
      by (simp only: round_half_even_of_int)
    then have "of_int (round_half_even (a / float32_ulp a)) \<le> (2::real) ^ 24"
      by (metis of_int_le_iff of_int_numeral of_int_power)
    then have lo: "round_magnitude a \<le> 2 ^ 24 * float32_ulp a"
      using float32_ulp_pos [of a] by (simp add: round_magnitude_def)
    have "(2::real) ^ j \<le> 2 ^ (k - 1)"
      using lt by (intro power_increasing) simp_all
    then have "2 ^ 24 * float32_ulp a \<le> 2 ^ 23 * float32_ulp b"
      by (simp add: ua ub k2)
    with lo hi show ?thesis by linarith
  qed
qed

lemma round_float32_mono: "x \<le> y \<Longrightarrow> round_float32 x \<le> round_float32 y"
proof -
  assume xy: "x \<le> y"
  consider "y < 0" | "x < 0" "0 \<le> y" | "0 \<le> x" by linarith
  then show ?thesis
  proof cases
    case 1
    with xy have "round_magnitude (- y) \<le> round_magnitude (- x)"
      by (intro round_magnitude_mono) simp_all
    with 1 xy show ?thesis by (simp add: round_float32_def)
  next
    case 2
    then have "0 \<le> round_magnitude (- x)" "0 \<le> round_magnitude y"
      by (simp_all add: round_magnitude_nonneg)
    with 2 show ?thesis by (simp add: round_float32_def)
  next
    case 3
    with xy have "round_magnitude x \<le> round_magnitude y"
      by (intro round_magnitude_mono) simp_all
    with 3 xy show ?thesis by (simp add: round_float32_def)
  qed
qed

text \<open>
  A confidence that passes the test of the code is strictly above the threshold
  itself: a single-precision number that is not above the threshold is not above the
  rounded threshold either.
\<close>

lemma conf_above_rounded:
  assumes "conf b > round_float32 thr"
  shows "conf b > thr"
proof (rule ccontr)
  assume "\<not> conf b > thr"
  then have "round_float32 (conf b) \<le> round_float32 thr"
    by (intro round_float32_mono) simp
  moreover have "round_float32 (conf b) = conf b"
    using Rep_float32 [of "conf32 b"] by (simp add: conf_def)
  ultimately show False using assms by simp
qed

lemmas example_defs = example_frame_def example_blur_def example_model_def

lemmas eval_defs = conf_examples round_float32_examples video_frame_step_def detect_faces_def image_detect_and_blur_def
  image_box_step_def blur_face_def clamp_def map_int_def py_int_def get_roi_def set_roi_def
  roi_size_def py_slice_def py_slice_assign_def py_slice_index_def frame_width_def
  frame_height_def Let_def

lemmas world_defs = path_exists_def makedirs_def print_line_def imread_def imwrite_def
  VideoCapture_def VideoWriter_def basename_def path_join_def output_path_of_def
  ensure_output_dir_def

subsection \<open>The two nested loops over the detector's results\<close>

lemma fold_nested: "fold (\<lambda>r. fold f r) rs acc = fold f (concat rs) acc"
  by (induction rs arbitrary: acc) simp_all

lemma detect_inner:
  "fold (\<lambda>box faces. if conf box > thr then faces @ [map_int (xyxy box)] else faces) r acc
     = acc @ boxes_above thr r"
  by (induction r arbitrary: acc) (simp_all add: boxes_above_def)

lemma detect_faces_eq: "detect_faces thr rs = boxes_above (round_float32 thr) (concat rs)"
  unfolding detect_faces_def by (simp only: fold_nested detect_inner) simp

lemma image_inner:
  "fold (image_box_step G k thr W H) r fr =
     fold (blur_face G k W H) (boxes_above (round_float32 thr) r) fr"
  by (induction r arbitrary: fr) (simp_all add: boxes_above_def image_box_step_def)

lemma image_detect_and_blur_eq:
  "image_detect_and_blur model G k thr frame =
     fold (blur_face G k (frame_width frame) (frame_height frame))
       (detect_faces thr (model frame)) frame"
  by (simp only: image_detect_and_blur_def Let_def fold_nested image_inner detect_faces_eq)

lemma example_image:
  "image_detect_and_blur example_model example_blur (3, 3) (1 / 2) example_frame =
     [[1, 2, 3, 4], [5, 0, 0, 8], [9, 10, 11, 12]]"
  by (simp add: example_defs eval_defs)

lemma example_paths:
  "basename ''in/a.jpg'' = ''a.jpg''" "basename ''in/b/a.jpg'' = ''a.jpg''"
  "basename ''in/v.mp4'' = ''v.mp4''" "basename ''in/b/v.mp4'' = ''v.mp4''"
  "output_path_of ''out'' ''in/a.jpg'' = ''out/blurred_a.jpg''"
  "output_path_of ''out'' ''in/b/a.jpg'' = ''out/blurred_a.jpg''"
  "output_path_of ''out'' ''in/v.mp4'' = ''out/blurred_v.mp4''"
  "output_path_of ''out'' ''in/b/v.mp4'' = ''out/blurred_v.mp4''"
  by (simp_all add: basename_def output_path_of_def path_join_def)

lemma example_files:
  "files example_world ''in/a.jpg'' = Some (Image example_frame)"
  "files example_world ''in/b/a.jpg'' = Some (Image [[7, 7], [7, 7]])"
  "files example_world ''in/v.mp4'' =
     Some (Video \<lparr>v_width = 4, v_height = 3, v_fps = 30000 / 1001,
                   v_frames = [example_frame, example_frame]\<rparr>)"
  "files example_world ''in/b/v.mp4'' =
     Some (Video \<lparr>v_width = 2, v_height = 2, v_fps = 25, v_frames = [[[7, 7], [7, 7]]]\<rparr>)"
  by (simp_all add: example_world_def)

lemma example_image_small:
  "image_detect_and_blur example_model example_blur (3, 3) (1 / 2) [[7, 7], [7, 7]] =
     [[7, 7], [7, 0]]"
  by (simp add: example_defs eval_defs)

subsection \<open>The clamp\<close>

text \<open>
  C2, as amended. For every box and all frame dimensions the clamp yields \<open>0 \<le> x1\<close>,
  \<open>0 \<le> y1\<close>, \<open>x2 \<le> W\<close> and \<open>y2 \<le> H\<close>: the first corner is only cut from below and
  the second only from above. The result is ordered, \<open>0 \<le> x1 \<le> x2 \<le> W\<close>, when the
  input was ordered and overlaps the range of the frame (\<open>x1 \<le> W\<close> and \<open>0 \<le> x2\<close>, for
  a width that is not negative), and likewise for \<open>y\<close>.
\<close>

theorem clamp_bounds:
  "clamp W H (x1, y1, x2, y2) = (a, b, c, d) \<Longrightarrow>
     0 \<le> a \<and> 0 \<le> b \<and> c \<le> W \<and> d \<le> H \<and>
     (0 \<le> W \<and> x1 \<le> x2 \<and> 0 \<le> x2 \<and> x1 \<le> W \<longrightarrow> a \<le> c) \<and>
     (0 \<le> H \<and> y1 \<le> y2 \<and> 0 \<le> y2 \<and> y1 \<le> H \<longrightarrow> b \<le> d)"
  by (auto simp: clamp_def)

theorem clamp_bounds_witness:
  "clamp 640 480 (- 5, 10, 700, 50) = (0, 10, 640, 50) \<and>
   within_frame 640 480 (0, 10, 640, 50)"
  using clamp_bounds [of 640 480 "- 5" 10 700 50 0 10 640 50]
  by (simp add: clamp_def within_frame_def)

text \<open>
  The claim as the specification words it fails in a 640 by 480 frame: an ordered box
  to the right of the frame comes out as \<open>(700, 10, 640, 50)\<close>, with \<open>x1 > x2\<close> and
  \<open>x1 > W\<close>; an ordered box to the left of it comes out as \<open>(0, 10, - 5, 50)\<close>, with
  \<open>x2 < 0\<close>; and a box inside the frame whose corners are not ordered stays as it is.
\<close>

theorem clamp_order_counterexample:
  "\<not> within_frame 640 480 (clamp 640 480 (700, 10, 800, 50)) \<and>
   \<not> within_frame 640 480 (clamp 640 480 (- 20, 10, - 5, 50)) \<and>
   \<not> within_frame 640 480 (clamp 640 480 (50, 10, 20, 30))"
  by (simp add: clamp_def within_frame_def)

text \<open>
  C8. The clamp is idempotent: clamping a box that is the result of a clamp with the
  same dimensions returns it unchanged.
\<close>

theorem clamp_idempotent: "clamp W H (clamp W H b) = clamp W H b"
  by (cases b) (simp add: clamp_def)

subsection \<open>The state machine of the video loop\<close>

lemma video_loop_frame_number:
  assumes "detection_interval \<noteq> 0"
  shows "\<exists>faces' printed written.
           video_loop (video_frame_step model G k thr detection_interval W H fc name)
               (n, faces) frames =
             Inr ((n + int (length frames), faces'), printed, written) \<and>
           length written = length frames"
proof (induction frames arbitrary: n faces)
  case Nil
  show ?case by simp
next
  case (Cons f fs)
  from assms obtain faces1 printed1 out1 where
    step: "video_frame_step model G k thr detection_interval W H fc name (n, faces) f =
             Inr ((n + 1, faces1), printed1, out1)"
    by (simp add: video_frame_step_def Let_def)
  from Cons.IH [of "n + 1" faces1] obtain faces' printed written where
    "video_loop (video_frame_step model G k thr detection_interval W H fc name)
         (n + 1, faces1) fs = Inr ((n + 1 + int (length fs), faces'), printed, written)"
    "length written = length fs"
    by blast
  with step show ?case by (simp add: add.assoc add.commute)
qed

lemma video_loop_append:
  "video_loop step state (xs @ ys) =
     (case video_loop step state xs of
        Inl e \<Rightarrow> Inl e
      | Inr (state', printed, written) \<Rightarrow>
          (case video_loop step state' ys of
             Inl e \<Rightarrow> Inl e
           | Inr (final, printed', written') \<Rightarrow>
               Inr (final, printed @ printed', written @ written')))"
  by (induction xs arbitrary: state) (auto split: sum.splits prod.splits)

text \<open>
  C1, as amended. Let the loop read the frames \<open>earlier\<close> of a video and then \<open>frame\<close>,
  from the initial state (frame number 0, empty cache), with a detection interval
  that is not zero. After \<open>earlier\<close> the frame number is their count. Reading \<open>frame\<close>,
  whose 1-indexed number is \<open>length earlier + 1\<close>, the loop leaves in the cache exactly
  the boxes that the detector finds on \<open>frame\<close> with a confidence strictly above the
  threshold rounded to single precision, whatever the cache held, when the number is
  divisible by the interval, and leaves the cache as it was otherwise; the frame it
  writes is \<open>frame\<close> blurred at the boxes of that cache.
\<close>

theorem cache_transition:
  assumes "detection_interval \<noteq> 0"
  shows "\<exists>faces printed written printed'.
           video_loop (video_frame_step model G k thr detection_interval W H fc name)
               (0, []) earlier =
             Inr ((int (length earlier), faces), printed, written) \<and>
           video_loop (video_frame_step model G k thr detection_interval W H fc name)
               (0, []) (earlier @ [frame]) =
             Inr ((int (length earlier) + 1,
                   if detection_interval dvd int (length earlier) + 1
                   then boxes_above (round_float32 thr) (concat (model frame))
                   else faces),
                  printed @ printed',
                  written @
                  [fold (blur_face G k W H)
                     (if detection_interval dvd int (length earlier) + 1
                      then boxes_above (round_float32 thr) (concat (model frame))
                      else faces)
                     frame])"
proof -
  from video_loop_frame_number [OF assms, of model G k thr W H fc name 0 "[]" earlier]
  obtain faces printed written where
    loop: "video_loop (video_frame_step model G k thr detection_interval W H fc name)
               (0, []) earlier = Inr ((int (length earlier), faces), printed, written)"
    by auto
  let ?cache = "if detection_interval dvd int (length earlier) + 1
                then boxes_above (round_float32 thr) (concat (model frame))
                else faces"
  have step: "video_frame_step model G k thr detection_interval W H fc name
              (int (length earlier), faces) frame =
            Inr ((int (length earlier) + 1, ?cache),
                 (if (int (length earlier) + 1) mod 30 = 0
                  then [FrameProgress (int (length earlier) + 1) fc name] else []),
                 fold (blur_face G k W H) ?cache frame)"
    using assms
    by (simp add: video_frame_step_def Let_def detect_faces_eq mod_eq_0_iff_dvd)
  have "video_loop (video_frame_step model G k thr detection_interval W H fc name)
               (0, []) (earlier @ [frame]) =
          Inr ((int (length earlier) + 1, ?cache),
               printed @ (if (int (length earlier) + 1) mod 30 = 0
                  then [FrameProgress (int (length earlier) + 1) fc name] else []),
               written @ [fold (blur_face G k W H) ?cache frame])"
    by (simp only: video_loop_append loop step video_loop.simps sum.case prod.case
          append_Nil2)
  with loop show ?thesis by blast
qed

theorem cache_transition_witness:
  "(2::int) \<noteq> 0 \<and>
   (\<exists>faces printed written printed'.
      video_loop (video_frame_step example_model example_blur (3, 3) (1 / 2) 2 4 3 2 ''a.mp4'')
          (0, []) [example_frame] = Inr ((1, faces), printed, written) \<and>
      video_loop (video_frame_step example_model example_blur (3, 3) (1 / 2) 2 4 3 2 ''a.mp4'')
          (0, []) [example_frame, example_frame] =
        Inr ((2, [(1, 1, 3, 2)]), printed @ printed',
             written @ [[[1, 2, 3, 4], [5, 0, 0, 8], [9, 10, 11, 12]]]))"
proof -
  have blurred: "blur_face example_blur (3, 3) 4 3 (1, 1, 3, 2) example_frame =
      [[1, 2, 3, 4], [5, 0, 0, 8], [9, 10, 11, 12]]"
    by (simp add: eval_defs example_defs)
  from cache_transition [of 2 example_model example_blur "(3, 3)" "1 / 2" 4 3 2 "''a.mp4''"
      "[example_frame]" example_frame]
  show ?thesis
    by (simp add: boxes_above_def example_model_def map_int_def py_int_def conf_examples
          round_float32_examples blurred del: video_loop.simps)
qed

text \<open>
  The claim as the specification words it, with the threshold itself, fails: at the
  threshold \<^verbatim>\<open>0.6\<close> a box of confidence \<^verbatim>\<open>float32(0.6)\<close> is strictly above the
  threshold, yet on a detection frame (interval 1) the loop leaves the cache empty
  and writes the frame as it was.
\<close>

theorem cache_transition_counterexample:
  "video_loop (video_frame_step example_model_0_6 example_blur (3, 3) double_0_6 1 4 3 1
                 ''a.mp4'')
       (0, []) [example_frame] = Inr ((1, []), [], [example_frame]) \<and>
   boxes_above double_0_6 (concat (example_model_0_6 example_frame)) = [(1, 1, 3, 2)]"
proof
  show "video_loop (video_frame_step example_model_0_6 example_blur (3, 3) double_0_6 1 4 3 1
                 ''a.mp4'')
       (0, []) [example_frame] = Inr ((1, []), [], [example_frame])"
    by (simp add: video_frame_step_def detect_faces_def example_model_0_6_def
          conf_examples round_float32_examples)
  show "boxes_above double_0_6 (concat (example_model_0_6 example_frame)) = [(1, 1, 3, 2)]"
    by (simp add: example_model_0_6_def boxes_above_def conf_examples map_int_def py_int_def
          double_0_6_def)
qed

lemma cache_kept:
  assumes "detection_interval \<noteq> 0"
    and "\<forall>j \<in> {1..length rest}. \<not> detection_interval dvd n + int j"
  shows "\<exists>printed.
           video_loop (video_frame_step model G k thr detection_interval W H fc name)
               (n, faces) rest =
             Inr ((n + int (length rest), faces), printed,
                  map (fold (blur_face G k W H) faces) rest)"
  using assms(2)
proof (induction rest arbitrary: n)
  case Nil
  show ?case by simp
next
  case (Cons f fs)
  have first: "\<not> detection_interval dvd n + 1"
    using Cons.prems by (auto dest: bspec [where x = 1])
  have later: "\<forall>j \<in> {1..length fs}. \<not> detection_interval dvd (n + 1) + int j"
  proof
    fix j assume "j \<in> {1..length fs}"
    then have "Suc j \<in> {1..length (f # fs)}" by simp
    with Cons.prems have "\<not> detection_interval dvd n + int (Suc j)" by blast
    moreover have "n + int (Suc j) = (n + 1) + int j" by simp
    ultimately show "\<not> detection_interval dvd (n + 1) + int j" by (simp add: add.assoc)
  qed
  have step: "video_frame_step model G k thr detection_interval W H fc name (n, faces) f =
      Inr ((n + 1, faces),
           (if (n + 1) mod 30 = 0 then [FrameProgress (n + 1) fc name] else []),
           fold (blur_face G k W H) faces f)"
    using assms(1) first by (simp add: video_frame_step_def Let_def mod_eq_0_iff_dvd)
  from Cons.IH [OF later] obtain printed where
    "video_loop (video_frame_step model G k thr detection_interval W H fc name)
         (n + 1, faces) fs =
       Inr ((n + 1 + int (length fs), faces), printed,
            map (fold (blur_face G k W H) faces) fs)"
    by blast
  with step show ?case by (simp add: add.assoc add.commute add.left_commute)
qed

text \<open>
  C9. A detection frame (its number \<open>n + 1\<close> divisible by the interval) stores the
  integer coordinates the detector produced, as they are, for the boxes that pass the
  comparison of line 133 (confidence above the threshold rounded to single
  precision), whatever the dimensions \<open>W\<close> and \<open>H\<close> of the frame; over the frames \<open>rest\<close> that follow before the next
  detection frame, the cache still holds exactly these coordinates. Every frame
  written in between was blurred through \<open>blur_face\<close>, which clamps its own copy of
  each box.
\<close>

theorem cache_holds_raw_boxes:
  assumes "detection_interval \<noteq> 0"
    and "detection_interval dvd n + 1"
    and "\<forall>j \<in> {1..length rest}. \<not> detection_interval dvd n + 1 + int j"
  shows "\<exists>printed.
           video_loop (video_frame_step model G k thr detection_interval W H fc name)
               (n, faces) (frame # rest) =
             Inr ((n + 1 + int (length rest),
                   map (\<lambda>b. map_int (xyxy b))
                     (filter (\<lambda>b. conf b > round_float32 thr) (concat (model frame)))),
                  printed,
                  map (fold (blur_face G k W H)
                         (map (\<lambda>b. map_int (xyxy b))
                            (filter (\<lambda>b. conf b > round_float32 thr) (concat (model frame)))))
                    (frame # rest))"
proof -
  let ?raw = "map (\<lambda>b. map_int (xyxy b)) (filter (\<lambda>b. conf b > round_float32 thr) (concat (model frame)))"
  have step: "video_frame_step model G k thr detection_interval W H fc name (n, faces) frame =
      Inr ((n + 1, ?raw),
           (if (n + 1) mod 30 = 0 then [FrameProgress (n + 1) fc name] else []),
           fold (blur_face G k W H) ?raw frame)"
    using assms(1,2)
    by (simp add: video_frame_step_def Let_def mod_eq_0_iff_dvd detect_faces_eq boxes_above_def)
  from cache_kept [OF assms(1) assms(3), of model G k thr W H fc name ?raw]
  obtain printed where
    "video_loop (video_frame_step model G k thr detection_interval W H fc name)
         (n + 1, ?raw) rest =
       Inr ((n + 1 + int (length rest), ?raw), printed,
            map (fold (blur_face G k W H) ?raw) rest)"
    by blast
  with step show ?thesis by simp
qed

theorem cache_holds_raw_boxes_witness:
  "(2::int) \<noteq> 0 \<and> (2::int) dvd 1 + 1 \<and> \<not> (2::int) dvd 1 + 1 + int 1 \<and>
   clamp 4 3 (- 2, - 1, 10, 1) = (0, 0, 4, 1) \<and>
   (\<exists>printed.
      video_loop (video_frame_step example_model_outside example_blur (3, 3) (1 / 2) 2 4 3 3
                    ''a.mp4'')
          (1, []) [example_frame, example_frame] =
        Inr ((3, [(- 2, - 1, 10, 1)]), printed,
             [[[0, 0, 0, 0], [5, 6, 7, 8], [9, 10, 11, 12]],
              [[0, 0, 0, 0], [5, 6, 7, 8], [9, 10, 11, 12]]]))"
proof -
  have later: "\<forall>j \<in> {1..length [example_frame]}. \<not> (2::int) dvd 1 + 1 + int j"
    by simp
  have blurred: "blur_face example_blur (3, 3) 4 3 (- 2, - 1, 10, 1) example_frame =
      [[0, 0, 0, 0], [5, 6, 7, 8], [9, 10, 11, 12]]"
    by (simp add: eval_defs example_defs)
  from cache_holds_raw_boxes [of 2 1 "[example_frame]" example_model_outside example_blur
      "(3, 3)" "1 / 2" 4 3 3 "''a.mp4''" "[]" example_frame, OF _ _ later]
  show ?thesis
    by (simp add: example_model_outside_def map_int_def py_int_def blurred clamp_def
          conf_examples round_float32_examples)
qed

subsection \<open>The threshold\<close>

text \<open>
  C6. The threshold is strict in both pipelines: removing from the detector's output
  every box whose confidence is not strictly above the threshold (a box of exactly
  the threshold among them) changes neither the frame the image pipeline produces
  nor the step of the video pipeline (its cache, its printed line, its frame).
\<close>

theorem strict_threshold:
  "image_detect_and_blur (\<lambda>f. map (filter (\<lambda>b. conf b > thr)) (model f)) G k thr frame =
     image_detect_and_blur model G k thr frame \<and>
   video_frame_step (\<lambda>f. map (filter (\<lambda>b. conf b > thr)) (model f)) G k thr
       detection_interval W H fc name state frame =
     video_frame_step model G k thr detection_interval W H fc name state frame"
proof -
  have keep: "(thr < conf b \<and> round_float32 thr < conf b) = (round_float32 thr < conf b)"
    for b
    using conf_above_rounded [of thr b] by auto
  have "boxes_above (round_float32 thr) (concat (map (filter (\<lambda>b. conf b > thr)) rs)) =
          boxes_above (round_float32 thr) (concat rs)" for rs
    by (induction rs) (simp_all add: boxes_above_def keep)
  then show ?thesis
    by (simp add: image_detect_and_blur_eq video_frame_step_def detect_faces_eq Let_def
          split: prod.splits)
qed

text \<open>
  In the example the second box has exactly the confidence 0.5 of the threshold: its
  region, the pixel of the first row and column, is left as it was.
\<close>

theorem strict_threshold_witness:
  "image_detect_and_blur (\<lambda>f. map (filter (\<lambda>b. conf b > 1 / 2)) (example_model f))
       example_blur (3, 3) (1 / 2) example_frame =
     [[1, 2, 3, 4], [5, 0, 0, 8], [9, 10, 11, 12]] \<and>
   image_detect_and_blur example_model example_blur (3, 3) (1 / 2) example_frame =
     [[1, 2, 3, 4], [5, 0, 0, 8], [9, 10, 11, 12]] \<and>
   detect_faces (1 / 2) (example_model example_frame) = [(1, 1, 3, 2)]"
  using strict_threshold [of "1 / 2" example_model example_blur "(3, 3)" example_frame]
  by (simp add: example_image detect_faces_eq boxes_above_def example_model_def map_int_def
        py_int_def conf_examples round_float32_examples)

subsection \<open>A detection interval of one\<close>

lemma video_frame_step_one:
  "video_frame_step model G k thr 1 (frame_width frame) (frame_height frame) fc name
       (n, faces) frame =
     Inr ((n + 1, detect_faces thr (model frame)),
          (if (n + 1) mod 30 = 0 then [FrameProgress (n + 1) fc name] else []),
          image_detect_and_blur model G k thr frame)"
  by (simp add: video_frame_step_def image_detect_and_blur_eq Let_def)

text \<open>
  C3. With a detection interval of 1, on a video whose frames have the dimensions the
  capture reports, the frames the loop hands to the writer are, one for one, what
  the detect-and-blur step of the image pipeline makes of each frame on its own.
\<close>

theorem interval_one_equals_image_step:
  assumes "\<forall>f \<in> set frames. frame_width f = width \<and> frame_height f = height"
  shows "\<exists>final printed.
           video_loop (video_frame_step model G k thr 1 width height fc name) state frames =
             Inr (final, printed, map (image_detect_and_blur model G k thr) frames)"
  using assms
proof (induction frames arbitrary: state)
  case Nil
  show ?case by simp
next
  case (Cons f fs)
  obtain n faces where st: "state = (n, faces)" by (cases state)
  have dims: "width = frame_width f" "height = frame_height f"
    using Cons.prems by auto
  from Cons.IH [of "(n + 1, detect_faces thr (model f))"] Cons.prems
  obtain final printed where
    "video_loop (video_frame_step model G k thr 1 width height fc name)
        (n + 1, detect_faces thr (model f)) fs =
       Inr (final, printed, map (image_detect_and_blur model G k thr) fs)"
    by auto
  then show ?case
    by (simp add: st dims video_frame_step_one)
qed

theorem interval_one_equals_image_step_witness:
  "frame_width example_frame = 4 \<and> frame_height example_frame = 3 \<and>
   (\<exists>final printed.
      video_loop (video_frame_step example_model example_blur (3, 3) (1 / 2) 1 4 3 2 ''a.mp4'')
          (0, []) [example_frame, example_frame] =
        Inr (final, printed,
             [[[1, 2, 3, 4], [5, 0, 0, 8], [9, 10, 11, 12]],
              [[1, 2, 3, 4], [5, 0, 0, 8], [9, 10, 11, 12]]]))"
proof -
  have dims: "\<forall>f \<in> set [example_frame, example_frame]. frame_width f = 4 \<and> frame_height f = 3"
    by (simp add: example_defs frame_width_def frame_height_def)
  from interval_one_equals_image_step [OF dims, of example_model example_blur "(3, 3)" "1 / 2" 2
      "''a.mp4''" "(0, [])"]
  show ?thesis using dims by (simp add: example_image)
qed

subsection \<open>A model that fails to load\<close>

text \<open>
  C4. When loading the model fails, both functions return at once: the result is the
  world after the output directory was ensured and the error was printed, whatever
  the list of input paths. No file is read, written or changed (\<open>files\<close> is what it
  was), and nothing else is printed. The output directory itself is created before
  the load is attempted, when it did not exist.
\<close>

theorem model_load_failure_aborts:
  "blur_faces_in_images (Inl e) G image_paths output_dir k thr w =
     print_line (ModelLoadError e) (ensure_output_dir output_dir w) \<and>
   blur_faces_in_videos (Inl e) G video_paths output_dir k thr detection_interval w =
     Inr (print_line (ModelLoadError e) (ensure_output_dir output_dir w)) \<and>
   files (print_line (ModelLoadError e) (ensure_output_dir output_dir w)) = files w \<and>
   stdout (print_line (ModelLoadError e) (ensure_output_dir output_dir w)) =
     stdout w @ (if path_exists w output_dir then [] else [DirCreated output_dir])
       @ [ModelLoadError e] \<and>
   dirs (print_line (ModelLoadError e) (ensure_output_dir output_dir w)) =
     (if path_exists w output_dir then dirs w else insert output_dir (dirs w))"
  by (simp add: blur_faces_in_images_def blur_faces_in_videos_def print_line_def
        ensure_output_dir_def makedirs_def Let_def)

theorem model_load_failure_aborts_witness:
  "blur_faces_in_images (Inl ''no weights'') example_blur [''in/a.jpg'', ''in/b/a.jpg''] ''out''
       (3, 3) (1 / 2) example_world =
     example_world\<lparr>dirs := {''out'', ''in'', ''in/b''},
                     stdout := [DirCreated ''out'', ModelLoadError ''no weights'']\<rparr> \<and>
   blur_faces_in_videos (Inl ''no weights'') example_blur [''in/v.mp4''] ''out''
       (3, 3) (1 / 2) 5 example_world =
     Inr (example_world\<lparr>dirs := {''out'', ''in'', ''in/b''},
                          stdout := [DirCreated ''out'', ModelLoadError ''no weights'']\<rparr>)"
  using model_load_failure_aborts [of "''no weights''" example_blur "[''in/a.jpg'', ''in/b/a.jpg'']"
      "''out''" "(3, 3)" "1 / 2" example_world "[''in/v.mp4'']" 5]
  by (simp add: example_world_def world_defs)

subsection \<open>An image without faces\<close>

text \<open>
  C7. In the image pipeline, when the detector returns no box whose confidence is
  strictly above the threshold for the decoded frame, the frame written to the
  output path is the decoded frame itself.
\<close>

theorem image_without_faces_unchanged:
  assumes "files w image_path = Some (Image frame)"
    and "\<forall>b \<in> set (concat (model frame)). \<not> conf b > thr"
  shows "files (process_image model G output_dir k thr image_path w)
           (output_path_of output_dir image_path) = Some (Image frame)"
proof -
  have "boxes_above (round_float32 thr) (concat (model frame)) = []"
    using assms(2) by (auto simp: boxes_above_def filter_empty_conv dest: conf_above_rounded)
  then have "image_detect_and_blur model G k thr frame = frame"
    by (simp add: image_detect_and_blur_eq detect_faces_eq)
  with assms(1) show ?thesis
    by (simp add: process_image_def path_exists_def imread_def imwrite_def print_line_def
          Let_def)
qed

theorem image_without_faces_unchanged_witness:
  "files example_world ''in/a.jpg'' = Some (Image example_frame) \<and>
   \<not> conf \<lparr>conf32 = f32_of (7 / 8), xyxy = (3 / 2, 6 / 5, 37 / 10, 29 / 10)\<rparr> > 7 / 8 \<and>
   \<not> conf \<lparr>conf32 = f32_of (1 / 2), xyxy = (0, 0, 1, 1)\<rparr> > 7 / 8 \<and>
   files (process_image example_model example_blur ''out'' (3, 3) (7 / 8) ''in/a.jpg''
            example_world) ''out/blurred_a.jpg'' = Some (Image example_frame)"
proof -
  have a: "files example_world ''in/a.jpg'' = Some (Image example_frame)"
    by (simp add: example_world_def)
  have b: "\<forall>b \<in> set (concat (example_model example_frame)). \<not> conf b > 7 / 8"
    by (simp add: example_model_def conf_examples)
  from image_without_faces_unchanged [where model = example_model and frame = example_frame
      and G = example_blur and output_dir = "''out''" and k = "(3, 3)", OF a b]
  show ?thesis using a
    by (simp add: output_path_of_def basename_def path_join_def conf_examples)
qed

subsection \<open>Output paths\<close>

lemma basename_no_slash: "CHR ''/'' \<notin> set (basename p)"
proof -
  have "\<forall>c \<in> set (takeWhile (\<lambda>c. c \<noteq> CHR ''/'') (rev p)). c \<noteq> CHR ''/''"
    by (blast dest: set_takeWhileD)
  then show ?thesis by (auto simp: basename_def)
qed

lemma basename_after_slash:
  assumes "CHR ''/'' \<notin> set b"
  shows "basename (a @ ''/'' @ b) = b"
proof -
  have "takeWhile (\<lambda>c. c \<noteq> CHR ''/'') (rev b @ CHR ''/'' # rev a) = rev b"
    using assms by (auto simp: takeWhile_tail takeWhile_eq_all_conv)
  then show ?thesis by (simp add: basename_def)
qed

lemma basename_path_join:
  assumes "CHR ''/'' \<notin> set b"
  shows "basename (path_join a b) = b"
proof -
  have "take 1 b \<noteq> ''/''"
    using assms by (cases b) auto
  then have pj: "path_join a b =
      (if a = [] \<or> last a = CHR ''/'' then a @ b else a @ ''/'' @ b)"
    unfolding path_join_def by (simp only: if_False)
  show ?thesis
  proof (cases "a = []")
    case True
    from pj True have whole: "path_join a b = b" by simp
    have tw: "takeWhile (\<lambda>c. c \<noteq> CHR ''/'') (rev b) = rev b"
      using assms by (auto simp: takeWhile_eq_all_conv)
    show ?thesis unfolding basename_def whole tw by (rule rev_rev_ident)
  next
    case False
    show ?thesis
    proof (cases "last a = CHR ''/''")
      case True
      with False obtain a' where a': "a = a' @ ''/''"
        by (metis append_butlast_last_id)
      have "basename (a @ b) = basename (a' @ ''/'' @ b)"
        by (simp add: a')
      also have "\<dots> = b"
        by (rule basename_after_slash [OF assms])
      finally show ?thesis using True by (simp only: pj if_True simp_thms)
    next
      case True': False
      with False have "path_join a b = a @ ''/'' @ b" by (simp only: pj simp_thms if_False)
      then show ?thesis by (simp only: basename_after_slash [OF assms])
    qed
  qed
qed

lemma basename_output_path:
  "basename (output_path_of output_dir p) = ''blurred_'' @ basename p"
  unfolding output_path_of_def
  by (rule basename_path_join) (use basename_no_slash [of p] in simp)

lemma output_path_differs: "output_path_of output_dir p \<noteq> p"
proof
  assume "output_path_of output_dir p = p"
  then have "basename (output_path_of output_dir p) = basename p" by simp
  then have "length (''blurred_'' @ basename p) = length (basename p)"
    by (simp only: basename_output_path)
  then show False by simp
qed

lemma files_print_line: "files (print_line m w) = files w"
  by (simp add: print_line_def)

lemma files_ensure_output_dir: "files (ensure_output_dir d w) = files w"
  by (simp add: ensure_output_dir_def print_line_def makedirs_def)

lemma process_image_files:
  assumes "files w p = Some (Image frame)"
  shows "files (process_image model G output_dir k thr p w) =
           (files w)(output_path_of output_dir p \<mapsto>
              Image (image_detect_and_blur model G k thr frame))"
  using assms
  by (simp add: process_image_def path_exists_def imread_def imwrite_def print_line_def Let_def)

lemma process_video_files:
  assumes "files w p = Some (Video cap)" and "detection_interval \<noteq> 0"
  shows "\<exists>w' written.
           process_video model G output_dir k thr detection_interval p w = Inr w' \<and>
           length written = length (v_frames cap) \<and>
           files w' = (files w)(output_path_of output_dir p \<mapsto>
              Video \<lparr>v_width = v_width cap, v_height = v_height cap,
                     v_fps = of_int (py_int (v_fps cap)), v_frames = written\<rparr>)"
proof -
  from video_loop_frame_number [OF assms(2), of model G k thr "v_width cap" "v_height cap"
      "int (length (v_frames cap))" "basename p" 0 "[]" "v_frames cap"]
  obtain faces' printed written where
    loop: "video_loop (video_frame_step model G k thr detection_interval (v_width cap)
              (v_height cap) (int (length (v_frames cap))) (basename p)) (0, [])
              (v_frames cap) =
             Inr ((0 + int (length (v_frames cap)), faces'), printed, written)"
    and len: "length written = length (v_frames cap)"
    by blast
  have "\<exists>w'. process_video model G output_dir k thr detection_interval p w = Inr w' \<and>
      files w' = (files w)(output_path_of output_dir p \<mapsto>
              Video \<lparr>v_width = v_width cap, v_height = v_height cap,
                     v_fps = of_int (py_int (v_fps cap)), v_frames = written\<rparr>)"
    using assms(1)
    by (simp add: process_video_def path_exists_def VideoCapture_def VideoWriter_def
          print_line_def Let_def loop)
  with len show ?thesis by blast
qed

text \<open>
  C10. The output path is a function of the output directory and the basename of the
  input path, the same function in both pipelines. So two inputs of one call that
  share a basename have the same output path, and after the call the file there is
  the result of the later one: of all the files only this one differs from before,
  although two inputs were processed. For the videos the detection interval is not
  zero.
\<close>

theorem same_basename_overwrites:
  assumes "basename path_a = basename path_b"
  shows "output_path_of output_dir path_a = output_path_of output_dir path_b \<and>
    (files w path_a = Some (Image frame_a) \<and> files w path_b = Some (Image frame_b) \<longrightarrow>
       files (blur_faces_in_images (Inr model) G [path_a, path_b] output_dir k thr w) =
         (files w)(output_path_of output_dir path_b \<mapsto>
            Image (image_detect_and_blur model G k thr frame_b))) \<and>
    (files w path_a = Some (Video cap_a) \<and> files w path_b = Some (Video cap_b) \<and>
     detection_interval \<noteq> 0 \<longrightarrow>
       (\<exists>w' written.
          blur_faces_in_videos (Inr model) G [path_a, path_b] output_dir k thr detection_interval w
            = Inr w' \<and>
          length written = length (v_frames cap_b) \<and>
          files w' = (files w)(output_path_of output_dir path_b \<mapsto>
            Video \<lparr>v_width = v_width cap_b, v_height = v_height cap_b,
                   v_fps = of_int (py_int (v_fps cap_b)), v_frames = written\<rparr>)))"
proof (intro conjI impI)
  let ?out = "output_path_of output_dir path_b"
  let ?w0 = "ensure_output_dir output_dir w"
  show same: "output_path_of output_dir path_a = ?out"
    using assms by (simp add: output_path_of_def)
  {
    assume im: "files w path_a = Some (Image frame_a) \<and> files w path_b = Some (Image frame_b)"
    let ?w_a = "process_image model G output_dir k thr path_a ?w0"
    have fa: "files ?w_a =
        (files w)(?out \<mapsto> Image (image_detect_and_blur model G k thr frame_a))"
      using process_image_files [of ?w0 path_a frame_a model G output_dir k thr] im
      by (simp add: files_ensure_output_dir same)
    have "files ?w_a path_b = Some (Image frame_b)"
      using im output_path_differs [of output_dir path_b] by (simp add: fa)
    from process_image_files [OF this, of model G output_dir k thr]
    have fb: "files (process_image model G output_dir k thr path_b ?w_a) =
        (files w)(?out \<mapsto> Image (image_detect_and_blur model G k thr frame_b))"
      by (simp add: fa)
    show "files (blur_faces_in_images (Inr model) G [path_a, path_b] output_dir k thr w) =
        (files w)(?out \<mapsto> Image (image_detect_and_blur model G k thr frame_b))"
      by (simp add: blur_faces_in_images_def Let_def files_print_line fb)
  }
  {
    assume vid: "files w path_a = Some (Video cap_a) \<and> files w path_b = Some (Video cap_b) \<and>
      detection_interval \<noteq> 0"
    then have nz: "detection_interval \<noteq> 0" by simp
    have "files ?w0 path_a = Some (Video cap_a)"
      using vid by (simp add: files_ensure_output_dir)
    from process_video_files [OF this nz, of model G output_dir k thr]
    obtain w_a written_a where
      ra: "process_video model G output_dir k thr detection_interval path_a ?w0 = Inr w_a"
      and fa: "files w_a = (files w)(?out \<mapsto>
              Video \<lparr>v_width = v_width cap_a, v_height = v_height cap_a,
                     v_fps = of_int (py_int (v_fps cap_a)), v_frames = written_a\<rparr>)"
      by (auto simp: files_ensure_output_dir same)
    have "files w_a path_b = Some (Video cap_b)"
      using vid output_path_differs [of output_dir path_b] by (simp add: fa)
    from process_video_files [OF this nz, of model G output_dir k thr]
    obtain w_b written where
      rb: "process_video model G output_dir k thr detection_interval path_b w_a = Inr w_b"
      and len: "length written = length (v_frames cap_b)"
      and fb: "files w_b = (files w)(?out \<mapsto>
              Video \<lparr>v_width = v_width cap_b, v_height = v_height cap_b,
                     v_fps = of_int (py_int (v_fps cap_b)), v_frames = written\<rparr>)"
      by (auto simp: fa)
    have "blur_faces_in_videos (Inr model) G [path_a, path_b] output_dir k thr detection_interval w
        = Inr (print_line AllDone w_b)"
      by (simp add: blur_faces_in_videos_def Let_def ra rb)
    with len fb
    show "\<exists>w' written.
          blur_faces_in_videos (Inr model) G [path_a, path_b] output_dir k thr detection_interval w
            = Inr w' \<and>
          length written = length (v_frames cap_b) \<and>
          files w' = (files w)(?out \<mapsto>
            Video \<lparr>v_width = v_width cap_b, v_height = v_height cap_b,
                   v_fps = of_int (py_int (v_fps cap_b)), v_frames = written\<rparr>)"
      by (auto simp: files_print_line)
  }
qed

theorem same_basename_overwrites_witness:
  "basename ''in/a.jpg'' = basename ''in/b/a.jpg'' \<and>
   basename ''in/v.mp4'' = basename ''in/b/v.mp4'' \<and>
   files (blur_faces_in_images (Inr example_model) example_blur [''in/a.jpg'', ''in/b/a.jpg'']
            ''out'' (3, 3) (1 / 2) example_world) =
     (files example_world)(''out/blurred_a.jpg'' \<mapsto> Image [[7, 7], [7, 0]]) \<and>
   (\<exists>w' written.
      blur_faces_in_videos (Inr example_model) example_blur [''in/v.mp4'', ''in/b/v.mp4'']
          ''out'' (3, 3) (1 / 2) 5 example_world = Inr w' \<and>
      length written = 1 \<and>
      files w' = (files example_world)(''out/blurred_v.mp4'' \<mapsto>
        Video \<lparr>v_width = 2, v_height = 2, v_fps = 25, v_frames = written\<rparr>))"
proof -
  have img: "basename ''in/a.jpg'' = basename ''in/b/a.jpg''"
    by (simp add: example_paths)
  have vid: "basename ''in/v.mp4'' = basename ''in/b/v.mp4''"
    by (simp add: example_paths)
  note i = same_basename_overwrites [OF img, of "''out''" example_world example_frame
      "[[7, 7], [7, 7]]" example_model example_blur "(3, 3)" "1 / 2"]
  note v = same_basename_overwrites [OF vid, where output_dir = "''out''" and w = example_world
      and cap_a = "\<lparr>v_width = 4, v_height = 3, v_fps = 30000 / 1001,
                   v_frames = [example_frame, example_frame]\<rparr>"
      and cap_b = "\<lparr>v_width = 2, v_height = 2, v_fps = 25, v_frames = [[[7, 7], [7, 7]]]\<rparr>"
      and detection_interval = 5 and model = example_model and G = example_blur
      and k = "(3, 3)" and thr = "1 / 2"]
  from i v show ?thesis
    by (simp add: example_paths example_files example_image_small py_int_def)
qed

subsection \<open>The frame rate of the output\<close>

text \<open>
  C5, at a video of two frames whose frame rate is 30000/1001 (29.97 frames per
  second): the output has the dimensions and the two frames of the source, in order,
  but a frame rate of 29, since line 110 passes the rate through \<^verbatim>\<open>int(...)\<close>.
\<close>

theorem frame_rate_truncated:
  "\<exists>w'. process_video example_model example_blur ''out'' (3, 3) (1 / 2) 5 ''in/v.mp4''
            example_world = Inr w' \<and>
         files example_world ''in/v.mp4'' =
           Some (Video \<lparr>v_width = 4, v_height = 3, v_fps = 30000 / 1001,
                         v_frames = [example_frame, example_frame]\<rparr>) \<and>
         files w' ''out/blurred_v.mp4'' =
           Some (Video \<lparr>v_width = 4, v_height = 3, v_fps = 29,
                         v_frames = [example_frame, example_frame]\<rparr>)"
  by (simp add: process_video_def path_exists_def VideoCapture_def VideoWriter_def
        print_line_def Let_def example_files example_paths video_frame_step_def py_int_def)

end
